theory Spec2Isabelle
  imports Complex_Main "HOL-Library.Word"
begin

unbundle bit_operations_syntax

section \<open>Binary floating point, as far as the driver uses it\<close>

text \<open>
  The driver computes with the C++ types \<open>float\<close> and \<open>double\<close>, taken as the
  IEEE 754 formats binary32 and binary64. A value of either type is a finite rational, a
  negative zero, an infinity or a NaN; \<open>Finite 0\<close> is the positive zero. Every
  arithmetic operation computes the exact rational result and rounds it to the format of
  the operation's C++ type (round to nearest, ties to even), each operation on its own.
  A \<open>float\<close> widens to \<open>double\<close> without change, so the widening conversions of the
  source are not written.
\<close>

datatype fp = Finite rat | NegZero | PInf | NInf | NaN

record format =
  prec :: nat
  emin :: int
  emax :: int

definition binary32 :: format where
  "binary32 = \<lparr>prec = 24, emin = - 126, emax = 127\<rparr>"

definition binary64 :: format where
  "binary64 = \<lparr>prec = 53, emin = - 1022, emax = 1023\<rparr>"

text \<open>Number of binary digits of a positive integer.\<close>

function bitlen :: "int \<Rightarrow> nat" where
  "bitlen n = (if n \<le> 0 then 0 else Suc (bitlen (n div 2)))"
  by pat_completeness auto
termination
  by (relation "measure nat") auto

declare bitlen.simps [simp del]

text \<open>The exponent \<open>e\<close> with \<open>2 powi e \<le> x < 2 powi (e + 1)\<close>, for positive \<open>x\<close>.\<close>

definition flog2 :: "rat \<Rightarrow> int" where
  "flog2 x = (if 1 \<le> x then int (bitlen \<lfloor>x\<rfloor>) - 1
              else - int (bitlen (\<lceil>1 / x\<rceil> - 1)))"

text \<open>Nearest integer, a tie going to the even one.\<close>

definition rne :: "rat \<Rightarrow> int" where
  "rne y = (let f = \<lfloor>y\<rfloor>; d = y - of_int f
            in if d < 1 / 2 then f
               else if 1 / 2 < d then f + 1
               else if even f then f else f + 1)"

text \<open>
  Rounding a positive magnitude to \<open>prec\<close> significant bits, the exponent not below
  \<open>emin\<close> (below it the spacing is that of the subnormal numbers).
\<close>

definition round_mag :: "format \<Rightarrow> rat \<Rightarrow> rat" where
  "round_mag fmt x =
     (let e = max (flog2 x) (emin fmt);
          u = 2 powi (e - (int (prec fmt) - 1))
      in of_int (rne (x / u)) * u)"

definition signed_zero :: "bool \<Rightarrow> fp" where
  "signed_zero neg = (if neg then NegZero else Finite 0)"

definition signed_inf :: "bool \<Rightarrow> fp" where
  "signed_inf neg = (if neg then NInf else PInf)"

text \<open>
  Rounding an exact result: \<open>neg\<close> is the sign an exact zero gets; a result that is
  not zero keeps its own sign, also when it rounds to zero or overflows.
\<close>

definition fp_round :: "format \<Rightarrow> bool \<Rightarrow> rat \<Rightarrow> fp" where
  "fp_round fmt neg x =
     (if x = 0 then signed_zero neg
      else let y = round_mag fmt \<bar>x\<bar>
           in if 2 powi (emax fmt + 1) \<le> y then signed_inf (x < 0)
              else if y = 0 then signed_zero (x < 0)
              else Finite (if x < 0 then - y else y))"

fun fp_sign :: "fp \<Rightarrow> bool" where
  "fp_sign (Finite x) = (x < 0)"
| "fp_sign NegZero = True"
| "fp_sign PInf = False"
| "fp_sign NInf = True"
| "fp_sign NaN = False"

fun valof :: "fp \<Rightarrow> rat" where
  "valof (Finite x) = x"
| "valof NegZero = 0"
| "valof PInf = 0"
| "valof NInf = 0"
| "valof NaN = 0"


definition is_zero :: "fp \<Rightarrow> bool" where
  "is_zero a = (a = Finite 0 \<or> a = NegZero)"

definition is_inf :: "fp \<Rightarrow> bool" where
  "is_inf a = (a = PInf \<or> a = NInf)"

fun fp_neg :: "fp \<Rightarrow> fp" where
  "fp_neg (Finite x) = (if x = 0 then NegZero else Finite (- x))"
| "fp_neg NegZero = Finite 0"
| "fp_neg PInf = NInf"
| "fp_neg NInf = PInf"
| "fp_neg NaN = NaN"

definition fp_add :: "format \<Rightarrow> fp \<Rightarrow> fp \<Rightarrow> fp" where
  "fp_add fmt a b =
     (if a = NaN \<or> b = NaN then NaN
      else if is_inf a \<and> is_inf b then (if a = b then a else NaN)
      else if is_inf a then a
      else if is_inf b then b
      else fp_round fmt (fp_sign a \<and> fp_sign b) (valof a + valof b))"

definition fp_mul :: "format \<Rightarrow> fp \<Rightarrow> fp \<Rightarrow> fp" where
  "fp_mul fmt a b =
     (if a = NaN \<or> b = NaN then NaN
      else if (is_inf a \<and> is_zero b) \<or> (is_zero a \<and> is_inf b) then NaN
      else if is_inf a \<or> is_inf b then signed_inf (fp_sign a \<noteq> fp_sign b)
      else fp_round fmt (fp_sign a \<noteq> fp_sign b) (valof a * valof b))"

definition fp_div :: "format \<Rightarrow> fp \<Rightarrow> fp \<Rightarrow> fp" where
  "fp_div fmt a b =
     (if a = NaN \<or> b = NaN then NaN
      else if (is_zero a \<and> is_zero b) \<or> (is_inf a \<and> is_inf b) then NaN
      else if is_inf a \<or> is_zero b then signed_inf (fp_sign a \<noteq> fp_sign b)
      else if is_inf b then signed_zero (fp_sign a \<noteq> fp_sign b)
      else fp_round fmt (fp_sign a \<noteq> fp_sign b) (valof a / valof b))"

text \<open>
  Comparison: a NaN compares false with everything, the two zeros are equal. The rank
  puts the infinities below and above every finite value.
\<close>

fun fp_rank :: "fp \<Rightarrow> int" where
  "fp_rank NInf = - 1"
| "fp_rank PInf = 1"
| "fp_rank a = 0"

definition fp_lt :: "fp \<Rightarrow> fp \<Rightarrow> bool" where
  "fp_lt a b = (a \<noteq> NaN \<and> b \<noteq> NaN \<and>
     (fp_rank a < fp_rank b \<or> (fp_rank a = fp_rank b \<and> valof a < valof b)))"

definition fp_ge :: "fp \<Rightarrow> fp \<Rightarrow> bool" where
  "fp_ge a b = (a \<noteq> NaN \<and> b \<noteq> NaN \<and>
     (fp_rank b < fp_rank a \<or> (fp_rank a = fp_rank b \<and> valof b \<le> valof a)))"

text \<open>The values of the type \<open>float\<close>: the rationals that rounding to binary32 leaves as they are.\<close>

definition is_float :: "rat \<Rightarrow> bool" where
  "is_float x = (fp_round binary32 False x = Finite x)"

subsection \<open>Literals and conversions\<close>

text \<open>A \<open>double\<close> literal such as \<open>5.32\<close> is the nearest \<open>double\<close>.\<close>

definition double_lit :: "rat \<Rightarrow> fp" where
  "double_lit x = fp_round binary64 False x"

text \<open>An integer converted to \<open>float\<close>.\<close>

definition int_to_float :: "int \<Rightarrow> fp" where
  "int_to_float n = fp_round binary32 False (of_int n)"

text \<open>A \<open>double\<close> stored in a \<open>float\<close> variable.\<close>

fun double_to_float :: "fp \<Rightarrow> fp" where
  "double_to_float (Finite x) = fp_round binary32 False x"
| "double_to_float a = a"

text \<open>Truncation towards zero.\<close>

definition itrunc :: "rat \<Rightarrow> int" where
  "itrunc x = (if 0 \<le> x then \<lfloor>x\<rfloor> else \<lceil>x\<rceil>)"

text \<open>
  The cast \<open>(int32_t) f\<close>: the fractional part is dropped; the language leaves the result
  undefined (\<open>None\<close>) when \<open>f\<close> is not finite or the truncated value is not an
  \<open>int32_t\<close>.
\<close>

fun float_to_int32 :: "fp \<Rightarrow> int option" where
  "float_to_int32 (Finite x) =
     (if - (2 ^ 31) \<le> itrunc x \<and> itrunc x < 2 ^ 31 then Some (itrunc x) else None)"
| "float_to_int32 NegZero = Some 0"
| "float_to_int32 a = None"

section \<open>The device\<close>

text \<open>
  Modelled from the spec: the header and the base class \<open>ZMOD\<close> are absent. The
  register fields are macros of the header; each is a name. The base class gives register
  field access and the DMA transfer: a call of \<open>writeRegFld\<close>, \<open>setTransferSize\<close>,
  \<open>startDMATransfer\<close> or \<open>isDMATransferComplete\<close> is recorded, with the values of its
  arguments, in the order of the calls. A buffer is its address.
\<close>

datatype regfld =
    ZMODDAC1411_REGFLD_CR_OUT_ADDR_CNT_RST
  | ZMODDAC1411_REGFLD_CR_DAC_EN
  | ZMODDAC1411_REGFLD_CR_DIV_RATE
  | ZMODDAC1411_REGFLD_SC1HGMULTCOEF_VAL
  | ZMODDAC1411_REGFLD_SC1HGADDCOEF_VAL
  | ZMODDAC1411_REGFLD_SC1LGMULTCOEF_VAL
  | ZMODDAC1411_REGFLD_SC1LGADDCOEF_VAL
  | ZMODDAC1411_REGFLD_SC2HGMULTCOEF_VAL
  | ZMODDAC1411_REGFLD_SC2HGADDCOEF_VAL
  | ZMODDAC1411_REGFLD_SC2LGMULTCOEF_VAL
  | ZMODDAC1411_REGFLD_SC2LGADDCOEF_VAL
  | ZMODDAC1411_REGFLD_TRIG_SC1_HG_LG
  | ZMODDAC1411_REGFLD_TRIG_SC2_HG_LG

datatype call =
    WriteRegFld regfld int
  | SetTransferSize nat
  | StartDMATransfer nat
  | IsDMATransferComplete

text \<open>
  \<open>CALIBECLYPSEDAC\<close> holds \<open>float cal[2][2][2]\<close>, indexed by channel, gain and kind
  (0 multiplicative, 1 additive). The member \<open>calib\<close> points to it or is null.
\<close>

type_synonym CALIBECLYPSEDAC = "nat \<times> nat \<times> nat \<Rightarrow> fp"

record zmod =
  calib :: "CALIBECLYPSEDAC option"
  calls :: "call list"

definition writeRegFld :: "regfld \<Rightarrow> int \<Rightarrow> zmod \<Rightarrow> zmod" where
  "writeRegFld fld v dev = dev\<lparr>calls := calls dev @ [WriteRegFld fld v]\<rparr>"

text \<open>
  Modelled from the spec: the header with the status codes is absent. The documentation
  of \<open>setData\<close> gives 0 as the value returned on success; the value of \<open>ERR_FAIL\<close> is
  a parameter of \<open>setData\<close>.
\<close>

definition ERR_SUCCESS :: int where
  "ERR_SUCCESS = 0"

section \<open>Sample packing\<close>

definition arrangeChannelData :: "8 word \<Rightarrow> 16 word \<Rightarrow> 32 word" where
  "arrangeChannelData channel data =
     (let data' = data AND 0x3FFF
      in if channel \<noteq> 0 then push_bit 2 (ucast data' :: 32 word)
         else push_bit 18 (ucast data' :: 32 word))"

text \<open>
  The \<open>int16_t\<close> argument is cast to \<open>uint32_t\<close> (sign extension) and then passed as
  the \<open>uint16_t\<close> parameter (the low 16 bits).
\<close>

definition arrangeSignedChannelData :: "8 word \<Rightarrow> 16 word \<Rightarrow> 32 word" where
  "arrangeSignedChannelData channel data =
     arrangeChannelData channel (ucast (scast data :: 32 word))"

section \<open>Transfer\<close>

text \<open>
  The DMA engine is the environment: \<open>dma_done k\<close> is the answer of the poll number \<open>k\<close>
  (from 0) of \<open>isDMATransferComplete\<close>. The loop has no bound; where the engine never
  completes, the function does not return, which is the value \<open>None\<close>.
\<close>

partial_function (option) wait_complete :: "(nat \<Rightarrow> bool) \<Rightarrow> nat \<Rightarrow> zmod \<Rightarrow> zmod option" where
  "wait_complete dma_done k dev =
     (let dev' = dev\<lparr>calls := calls dev @ [IsDMATransferComplete]\<rparr>
      in if dma_done k then Some dev' else wait_complete dma_done (Suc k) dev')"

text \<open>
  \<open>length'\<close> is the parameter \<open>length\<close>, a \<open>size_t\<close> of the platform's width, so
  that \<open>length * sizeof(uint32_t)\<close> wraps at that width; \<open>start_status\<close> is what
  \<open>startDMATransfer\<close> returns.
\<close>

definition setData ::
  "int \<Rightarrow> 8 word \<Rightarrow> (nat \<Rightarrow> bool) \<Rightarrow> nat \<Rightarrow> 'a::len word \<Rightarrow> zmod \<Rightarrow> (8 word \<times> zmod) option" where
  "setData ERR_FAIL start_status dma_done buffer length' dev =
     (let dev1 = dev\<lparr>calls := calls dev @ [SetTransferSize (unat (length' * 4))]\<rparr>;
          dev2 = dev1\<lparr>calls := calls dev1 @ [StartDMATransfer buffer]\<rparr>;
          Status = start_status
      in if Status \<noteq> 0 then Some (word_of_int ERR_FAIL, dev2)
         else map_option (Pair Status) (wait_complete dma_done 0 dev2))"

section \<open>Gain and calibration\<close>

definition setGain :: "8 word \<Rightarrow> 8 word \<Rightarrow> zmod \<Rightarrow> zmod" where
  "setGain channel gain dev =
     (if channel \<noteq> 0 then writeRegFld ZMODDAC1411_REGFLD_TRIG_SC2_HG_LG (uint gain) dev
      else writeRegFld ZMODDAC1411_REGFLD_TRIG_SC1_HG_LG (uint gain) dev)"

text \<open>
  An index outside \<open>cal[2][2][2]\<close> is an access outside the array, which the language
  leaves undefined (\<open>None\<close>).
\<close>

definition setCalibValues :: "8 word \<Rightarrow> 8 word \<Rightarrow> fp \<Rightarrow> fp \<Rightarrow> zmod \<Rightarrow> zmod option" where
  "setCalibValues channel gain valG valA dev =
     (case calib dev of
        None \<Rightarrow> Some dev
      | Some pCalib \<Rightarrow>
          if unat channel < 2 \<and> unat gain < 2
          then Some (dev\<lparr>calib := Some (pCalib
                 ((unat channel, unat gain, 0) := valG,
                  (unat channel, unat gain, 1) := valA))\<rparr>)
          else None)"

definition IDEAL_RANGE_DAC_HIGH :: fp where
  "IDEAL_RANGE_DAC_HIGH = double_lit 5"

definition IDEAL_RANGE_DAC_LOW :: fp where
  "IDEAL_RANGE_DAC_LOW = double_lit (125 / 100)"

definition REAL_RANGE_DAC_HIGH :: fp where
  "REAL_RANGE_DAC_HIGH = double_lit (532 / 100)"

definition REAL_RANGE_DAC_LOW :: fp where
  "REAL_RANGE_DAC_LOW = double_lit (133 / 100)"

text \<open>
  \<open>1 + cg\<close> is a \<open>float\<close> sum; the quotient and the product are \<open>double\<close>
  operations; the result is stored in the \<open>float\<close> variable \<open>fval\<close>; \<open>fval + 0.5\<close>
  is a \<open>double\<close> sum.
\<close>

definition computeCoefMult :: "fp \<Rightarrow> 8 word \<Rightarrow> int option" where
  "computeCoefMult cg gain =
     (let fval = double_to_float
            (fp_mul binary64
               (fp_div binary64
                  (if gain \<noteq> 0 then fp_div binary64 IDEAL_RANGE_DAC_HIGH REAL_RANGE_DAC_HIGH
                   else fp_div binary64 IDEAL_RANGE_DAC_LOW REAL_RANGE_DAC_LOW)
                  (fp_add binary32 (int_to_float 1) cg))
               (int_to_float (2 ^ 16)));
          ival = float_to_int32 (fp_add binary64 fval (double_lit (5 / 10)))
      in ival)"

text \<open>
  \<open>-ca * (float)(uint32_t)(1<<17)\<close> is a \<open>float\<close> product; the divisor and the
  quotient are \<open>double\<close> operations.
\<close>

definition computeCoefAdd :: "fp \<Rightarrow> fp \<Rightarrow> 8 word \<Rightarrow> int option" where
  "computeCoefAdd ca cg gain =
     (let fval = double_to_float
            (fp_div binary64
               (fp_mul binary32 (fp_neg ca) (int_to_float (2 ^ 17)))
               (fp_mul binary64
                  (if gain \<noteq> 0 then REAL_RANGE_DAC_HIGH else REAL_RANGE_DAC_LOW)
                  (fp_add binary32 (int_to_float 1) cg)));
          ival = float_to_int32 (fp_add binary64 fval (double_lit (5 / 10)))
      in ival)"





text \<open>A register write whose value is the result of a coefficient computation.\<close>

definition writeCoef :: "regfld \<Rightarrow> int option \<Rightarrow> zmod \<Rightarrow> zmod option" where
  "writeCoef fld v dev = map_option (\<lambda>i. writeRegFld fld i dev) v"

text \<open>
  \<open>base\<close> is \<open>ZMOD::readUserCalib\<close>, which is absent: it returns a status and leaves
  the device in some state. With a success status and a null \<open>calib\<close> the function
  reads through a null pointer (\<open>None\<close>).
\<close>

definition readUserCalib :: "(zmod \<Rightarrow> int \<times> zmod) \<Rightarrow> zmod \<Rightarrow> (int \<times> zmod) option" where
  "readUserCalib base dev =
     (let (status, dev0) = base dev
      in if status = ERR_SUCCESS
         then (case calib dev0 of
                 None \<Rightarrow> None
               | Some cal \<Rightarrow>
                   Option.bind (writeCoef ZMODDAC1411_REGFLD_SC1HGMULTCOEF_VAL
                       (computeCoefMult (cal (0, 1, 0)) 1) dev0) (\<lambda>dev1.
                   Option.bind (writeCoef ZMODDAC1411_REGFLD_SC1HGADDCOEF_VAL
                       (computeCoefAdd (cal (0, 1, 0)) (cal (0, 1, 1)) 1) dev1) (\<lambda>dev2.
                   Option.bind (writeCoef ZMODDAC1411_REGFLD_SC1LGMULTCOEF_VAL
                       (computeCoefMult (cal (0, 0, 0)) 0) dev2) (\<lambda>dev3.
                   Option.bind (writeCoef ZMODDAC1411_REGFLD_SC1LGADDCOEF_VAL
                       (computeCoefAdd (cal (0, 0, 0)) (cal (0, 0, 1)) 0) dev3) (\<lambda>dev4.
                   Option.bind (writeCoef ZMODDAC1411_REGFLD_SC2HGMULTCOEF_VAL
                       (computeCoefMult (cal (1, 1, 0)) 1) dev4) (\<lambda>dev5.
                   Option.bind (writeCoef ZMODDAC1411_REGFLD_SC2HGADDCOEF_VAL
                       (computeCoefAdd (cal (1, 1, 0)) (cal (1, 1, 1)) 1) dev5) (\<lambda>dev6.
                   Option.bind (writeCoef ZMODDAC1411_REGFLD_SC2LGMULTCOEF_VAL
                       (computeCoefMult (cal (1, 0, 0)) 0) dev6) (\<lambda>dev7.
                   Option.bind (writeCoef ZMODDAC1411_REGFLD_SC2LGADDCOEF_VAL
                       (computeCoefAdd (cal (1, 0, 0)) (cal (1, 0, 1)) 0) dev7) (\<lambda>dev8.
                   Some (ERR_SUCCESS, dev8))))))))))
         else Some (ERR_SUCCESS, dev0))"

section \<open>Volts to raw\<close>

definition getSignedRawFromVolt :: "fp \<Rightarrow> 8 word \<Rightarrow> int option" where
  "getSignedRawFromVolt voltValue gain =
     (let vMax = double_to_float (if gain \<noteq> 0 then IDEAL_RANGE_DAC_HIGH else IDEAL_RANGE_DAC_LOW)
      in if fp_ge voltValue vMax then Some (2 ^ 13 - 1)
         else if fp_lt voltValue (fp_neg vMax) then Some (2 ^ 13)
         else float_to_int32
                (fp_div binary32 (fp_mul binary32 voltValue (int_to_float (2 ^ 13))) vMax))"

section \<open>Properties of the sample packing\<close>

lemma mask14_16: "(0x3FFF :: 16 word) = mask 14"
  by (simp add: mask_eq_exp_minus_1)

lemma low18_32: "(0x0003FFFF :: 32 word) = mask 18"
  by (simp add: mask_eq_exp_minus_1)

lemma outside_ch1: "(0xFFFF0003 :: 32 word) = NOT (push_bit 2 (mask 14))"
  by (simp add: mask_eq_exp_minus_1 push_bit_eq_mult)

lemma gaps_32: "(0x00030003 :: 32 word) = mask 2 OR push_bit 16 (mask 2)"
  by (simp add: mask_eq_exp_minus_1 push_bit_eq_mult)

lemma arrange_ch0: "arrangeChannelData 0 data = push_bit 18 (ucast (take_bit 14 data))"
  by (simp add: arrangeChannelData_def mask14_16 take_bit_eq_mask)

lemma arrange_nonzero:
  "channel \<noteq> 0 \<Longrightarrow> arrangeChannelData channel data = push_bit 2 (ucast (take_bit 14 data))"
  by (simp add: arrangeChannelData_def mask14_16 take_bit_eq_mask)

lemma ch0_low_zero: "push_bit 18 (ucast (take_bit 14 (d :: 16 word)) :: 32 word) AND mask 18 = 0"
  by (rule bit_word_eqI) (auto simp: bit_simps)

lemma ch1_outside_zero:
  "push_bit 2 (ucast (take_bit 14 (d :: 16 word)) :: 32 word) AND NOT (push_bit 2 (mask 14)) = 0"
  by (rule bit_word_eqI) (auto simp: bit_simps)

text \<open>
  Claim C3. For every 16-bit \<open>data\<close>, \<open>arrangeChannelData\<close> is \<open>data\<close> masked to its
  low 14 bits and shifted left by 18 for channel 0, by 2 for channel 1; the result of
  channel 0 has no bit below bit 18, the result of channel 1 no bit outside bits 15 to 2.
\<close>

theorem arrangeChannelData_window:
  "arrangeChannelData 0 data = push_bit 18 (ucast (data AND 0x3FFF))
   \<and> arrangeChannelData 1 data = push_bit 2 (ucast (data AND 0x3FFF))
   \<and> arrangeChannelData 0 data AND 0x0003FFFF = 0
   \<and> arrangeChannelData 1 data AND 0xFFFF0003 = 0"
proof -
  have "arrangeChannelData 0 data AND 0x0003FFFF = 0"
    unfolding low18_32 arrange_ch0 by (rule ch0_low_zero)
  moreover have "arrangeChannelData 1 data AND 0xFFFF0003 = 0"
    unfolding outside_ch1 by (simp add: arrange_nonzero ch1_outside_zero)
  ultimately show ?thesis
    by (simp add: arrangeChannelData_def)
qed

lemma field_hi:
  "take_bit 14 (drop_bit 18 (push_bit 18 (ucast (take_bit 14 (a :: 16 word)) :: 32 word)
      OR push_bit 2 (ucast (take_bit 14 (b :: 16 word))))) = ucast (take_bit 14 a)"
  by (rule bit_word_eqI) (auto simp: bit_simps)

lemma field_lo:
  "take_bit 14 (drop_bit 2 (push_bit 18 (ucast (take_bit 14 (a :: 16 word)) :: 32 word)
      OR push_bit 2 (ucast (take_bit 14 (b :: 16 word))))) = ucast (take_bit 14 b)"
  by (rule bit_word_eqI) (auto simp: bit_simps)

lemma field_gaps:
  "(push_bit 18 (ucast (take_bit 14 (a :: 16 word)) :: 32 word)
      OR push_bit 2 (ucast (take_bit 14 (b :: 16 word)))) AND (mask 2 OR push_bit 16 (mask 2)) = 0"
  by (rule bit_word_eqI) (auto simp: bit_simps)

text \<open>
  Claim C4, as amended. In the word made of the two channel contributions, the sample of
  channel 0 is in bits 31 to 18 and the sample of channel 1 in bits 15 to 2; bits 17, 16,
  1 and 0 are zero.
\<close>

theorem packed_word_fields:
  "take_bit 14 (drop_bit 18 (arrangeChannelData 0 a OR arrangeChannelData 1 b)) = ucast (a AND 0x3FFF)
   \<and> take_bit 14 (drop_bit 2 (arrangeChannelData 0 a OR arrangeChannelData 1 b)) = ucast (b AND 0x3FFF)
   \<and> (arrangeChannelData 0 a OR arrangeChannelData 1 b) AND 0x00030003 = 0"
proof -
  have a: "arrangeChannelData 0 a = push_bit 18 (ucast (take_bit 14 a))"
    by (rule arrange_ch0)
  have b: "arrangeChannelData 1 b = push_bit 2 (ucast (take_bit 14 b))"
    by (simp add: arrange_nonzero)
  have m: "a AND 0x3FFF = take_bit 14 a" "b AND 0x3FFF = take_bit 14 b"
    by (simp_all add: mask14_16 take_bit_eq_mask)
  show ?thesis
    unfolding a b m gaps_32 using field_hi [of a b] field_lo [of a b] field_gaps [of a b]
    by blast
qed

text \<open>
  Claim C4 as stated puts the sample of channel 0 in bits 17 to 4. For the sample
  \<open>0x3FFF\<close> on channel 0 those bits are all zero, and the sample is in bits 31 to 18.
\<close>

theorem packed_word_fields_counterexample:
  "take_bit 14 (drop_bit 4 (arrangeChannelData 0 0x3FFF)) = 0
   \<and> take_bit 14 (drop_bit 18 (arrangeChannelData 0 0x3FFF)) = 0x3FFF"
  by (simp add: arrangeChannelData_def)

lemma ucast_scast_16: "ucast (scast (d :: 16 word) :: 32 word) = d"
  by (rule bit_word_eqI) (auto simp: bit_simps)

lemma take14_minus1: "take_bit 14 (- 1 :: 16 word) = take_bit 14 0x3FFF"
  unfolding mask14_16 by (rule bit_word_eqI) (auto simp: bit_simps)

lemma arrange_take:
  "arrangeChannelData channel data =
     (if channel = 0 then push_bit 18 (ucast (take_bit 14 data))
      else push_bit 2 (ucast (take_bit 14 data)))"
  by (simp add: arrange_ch0 arrange_nonzero)

lemma arrange_low14:
  "take_bit 14 d = take_bit 14 d' \<Longrightarrow> arrangeChannelData channel d = arrangeChannelData channel d'"
  by (simp only: arrange_take)

lemma arrangeSigned_unsigned: "arrangeSignedChannelData channel data = arrangeChannelData channel data"
  by (simp only: arrangeSignedChannelData_def ucast_scast_16)

text \<open>
  Claim C5. For every channel and every signed 16-bit \<open>data\<close>,
  \<open>arrangeSignedChannelData\<close> is \<open>arrangeChannelData\<close> of the unsigned 16-bit value
  with the same two's-complement bits; only the low 14 bits of \<open>data\<close> enter the result,
  whatever its value; and \<open>-1\<close> packs as \<open>0x3FFF\<close>.
\<close>

theorem arrangeSignedChannelData_bits:
  "arrangeSignedChannelData channel data = arrangeChannelData channel (word_of_int (sint data mod 2 ^ 16))
   \<and> arrangeSignedChannelData channel data =
       (if channel = 0 then push_bit 18 (ucast (take_bit 14 data))
        else push_bit 2 (ucast (take_bit 14 data)))
   \<and> arrangeSignedChannelData channel (- 1) = arrangeChannelData channel 0x3FFF"
proof -
  have "(word_of_int (sint data mod 2 ^ 16) :: 16 word) = word_of_int (sint data)"
    unfolding word_of_int_eq_iff by (simp add: take_bit_eq_mod)
  then have pattern: "(word_of_int (sint data mod 2 ^ 16) :: 16 word) = data"
    by simp
  have minus1: "arrangeSignedChannelData channel (- 1) = arrangeChannelData channel 0x3FFF"
    unfolding arrangeSigned_unsigned by (rule arrange_low14) (rule take14_minus1)
  show ?thesis
    unfolding pattern using minus1 arrange_take [of channel data]
    by (simp only: arrangeSigned_unsigned simp_thms)
qed

text \<open>
  Claim C10. Every channel value other than 0 is treated as channel 1:
  \<open>arrangeChannelData\<close> shifts the masked data left by 2, and \<open>setGain\<close> writes the
  gain-select field of the second channel.
\<close>

theorem channel_is_boolean:
  "channel \<noteq> 0 \<Longrightarrow>
     arrangeChannelData channel data = arrangeChannelData 1 data
     \<and> arrangeChannelData channel data = push_bit 2 (ucast (data AND 0x3FFF))
     \<and> setGain channel gain dev = setGain 1 gain dev
     \<and> setGain channel gain dev = writeRegFld ZMODDAC1411_REGFLD_TRIG_SC2_HG_LG (uint gain) dev"
  by (simp add: arrangeChannelData_def setGain_def)

theorem channel_is_boolean_witness:
  "(2 :: 8 word) \<noteq> 0
   \<and> arrangeChannelData 2 0xFFFF = arrangeChannelData 1 0xFFFF
   \<and> arrangeChannelData 2 0xFFFF = 0xFFFC
   \<and> setGain 2 1 \<lparr>calib = None, calls = []\<rparr> = setGain 1 1 \<lparr>calib = None, calls = []\<rparr>
   \<and> setGain 2 1 \<lparr>calib = None, calls = []\<rparr> =
       \<lparr>calib = None, calls = [WriteRegFld ZMODDAC1411_REGFLD_TRIG_SC2_HG_LG 1]\<rparr>"
  using channel_is_boolean [of 2 "0xFFFF" 1 "\<lparr>calib = None, calls = []\<rparr>"]
  by (simp add: writeRegFld_def arrangeChannelData_def setGain_def)

section \<open>Properties of the calibration record\<close>

text \<open>
  Claim C9. With a null \<open>calib\<close>, \<open>setCalibValues\<close> returns and leaves the device as it
  is. With a loaded record and indices inside \<open>cal[2][2][2]\<close>, it stores \<open>valG\<close> at
  kind 0 and \<open>valA\<close> at kind 1 of \<open>[channel][gain]\<close>, where they are read back unchanged;
  the other channel and gain entries and the recorded calls stay as they are.
\<close>

theorem setCalibValues_record:
  "(calib dev = None \<longrightarrow> setCalibValues channel gain valG valA dev = Some dev)
   \<and> (calib dev = Some pCalib \<and> unat channel < 2 \<and> unat gain < 2 \<longrightarrow>
        (\<exists>pCalib'. setCalibValues channel gain valG valA dev = Some (dev\<lparr>calib := Some pCalib'\<rparr>)
           \<and> pCalib' (unat channel, unat gain, 0) = valG
           \<and> pCalib' (unat channel, unat gain, 1) = valA
           \<and> (\<forall>c g k. (c, g) \<noteq> (unat channel, unat gain) \<longrightarrow> pCalib' (c, g, k) = pCalib (c, g, k))))"
  by (auto simp: setCalibValues_def)

theorem setCalibValues_record_witness:
  "setCalibValues 1 0 (Finite 3) NaN \<lparr>calib = None, calls = []\<rparr> = Some \<lparr>calib = None, calls = []\<rparr>
   \<and> (\<exists>pCalib'. setCalibValues 1 0 (Finite 3) NaN \<lparr>calib = Some (\<lambda>i. Finite 0), calls = []\<rparr>
           = Some \<lparr>calib = Some pCalib', calls = []\<rparr>
         \<and> pCalib' (1, 0, 0) = Finite 3 \<and> pCalib' (1, 0, 1) = NaN \<and> pCalib' (0, 0, 0) = Finite 0)"
proof -
  have none: "setCalibValues 1 0 (Finite 3) NaN \<lparr>calib = None, calls = []\<rparr> = Some \<lparr>calib = None, calls = []\<rparr>"
    using setCalibValues_record [where dev = "\<lparr>calib = None, calls = []\<rparr>" and channel = 1
        and gain = 0 and valG = "Finite 3" and valA = NaN]
    by simp
  have loaded: "\<exists>pCalib'. setCalibValues 1 0 (Finite 3) NaN \<lparr>calib = Some (\<lambda>i. Finite 0), calls = []\<rparr>
           = Some \<lparr>calib = Some pCalib', calls = []\<rparr>
         \<and> pCalib' (1, 0, 0) = Finite 3 \<and> pCalib' (1, 0, 1) = NaN \<and> pCalib' (0, 0, 0) = Finite 0"
    using setCalibValues_record [where dev = "\<lparr>calib = Some (\<lambda>i. Finite 0), calls = []\<rparr>"
        and pCalib = "\<lambda>i. Finite 0" and channel = 1 and gain = 0 and valG = "Finite 3" and valA = NaN]
    by auto
  from none loaded show ?thesis by simp
qed

section \<open>Properties of the transfer\<close>

lemma wait_complete_returns:
  "dma_done n \<Longrightarrow> \<forall>j. k \<le> j \<and> j < n \<longrightarrow> \<not> dma_done j \<Longrightarrow> k \<le> n \<Longrightarrow>
     wait_complete dma_done k dev =
       Some (dev\<lparr>calls := calls dev @ replicate (Suc (n - k)) IsDMATransferComplete\<rparr>)"
proof (induction "n - k" arbitrary: k dev)
  case 0
  then have "k = n" by simp
  with 0 show ?case
    by (subst wait_complete.simps) simp
next
  case (Suc m)
  then have less: "k < n" and notyet: "\<not> dma_done k" by auto
  have step: "wait_complete dma_done (Suc k) (dev\<lparr>calls := calls dev @ [IsDMATransferComplete]\<rparr>) =
      Some (dev\<lparr>calls := (calls dev @ [IsDMATransferComplete]) @ replicate (Suc (n - Suc k)) IsDMATransferComplete\<rparr>)"
    using Suc.hyps(1) [of "Suc k" "dev\<lparr>calls := calls dev @ [IsDMATransferComplete]\<rparr>"] Suc.hyps(2) Suc.prems less
    by auto
  have "Suc (n - k) = Suc (Suc (n - Suc k))" using less by simp
  then show ?case
    using notyet step by (subst wait_complete.simps) (simp add: Let_def)
qed

lemma wait_complete_Some_done:
  "wait_complete dma_done k dev = Some r \<Longrightarrow> \<exists>j. dma_done j"
proof (induction rule: wait_complete.raw_induct [rotated 1, consumes 1])
  case (1 w dma_done k dev r)
  then show ?case
    by (cases "dma_done k") (auto simp: Let_def)
qed

lemma wait_complete_diverges:
  "\<forall>j. \<not> dma_done j \<Longrightarrow> wait_complete dma_done k dev = None"
  using wait_complete_Some_done [of dma_done k dev] by (cases "wait_complete dma_done k dev") auto

text \<open>
  Claim C2. \<open>setData\<close> first sets the transfer size to \<open>length * 4\<close> (a \<open>size_t\<close>
  product) and starts the transfer. With a non-zero start status it returns \<open>ERR_FAIL\<close>
  without one poll. With a zero start status it polls until the first poll that reports
  completion, poll number \<open>n\<close>, and returns the success status; with an engine that never
  completes it does not return.
\<close>

theorem setData_transfer:
  fixes length' :: "'a::len word"
  shows
  "(start_status \<noteq> 0 \<longrightarrow>
      setData ERR_FAIL start_status dma_done buffer length' dev =
        Some (word_of_int ERR_FAIL,
              dev\<lparr>calls := calls dev @ [SetTransferSize (unat (length' * 4)), StartDMATransfer buffer]\<rparr>))
   \<and> (start_status = 0 \<and> dma_done n \<and> (\<forall>j. j < n \<longrightarrow> \<not> dma_done j) \<longrightarrow>
      setData ERR_FAIL start_status dma_done buffer length' dev =
        Some (word_of_int ERR_SUCCESS,
              dev\<lparr>calls := calls dev @ [SetTransferSize (unat (length' * 4)), StartDMATransfer buffer]
                       @ replicate (Suc n) IsDMATransferComplete\<rparr>))
   \<and> (start_status = 0 \<and> (\<forall>j. \<not> dma_done j) \<longrightarrow>
      setData ERR_FAIL start_status dma_done buffer length' dev = None)
   \<and> (unat length' * 4 < 2 ^ LENGTH('a) \<longrightarrow> unat (length' * 4) = unat length' * 4)"
proof -
  let ?dev2 = "dev\<lparr>calls := calls dev @ [SetTransferSize (unat (length' * 4)), StartDMATransfer buffer]\<rparr>"
  have poll: "setData ERR_FAIL 0 dma_done buffer length' dev =
      map_option (Pair 0) (wait_complete dma_done 0 ?dev2)"
    by (simp add: setData_def Let_def)
  have fail: "start_status \<noteq> 0 \<longrightarrow>
      setData ERR_FAIL start_status dma_done buffer length' dev = Some (word_of_int ERR_FAIL, ?dev2)"
    by (simp add: setData_def Let_def)
  have ok: "start_status = 0 \<and> dma_done n \<and> (\<forall>j. j < n \<longrightarrow> \<not> dma_done j) \<longrightarrow>
      setData ERR_FAIL start_status dma_done buffer length' dev =
        Some (word_of_int ERR_SUCCESS,
              dev\<lparr>calls := calls dev @ [SetTransferSize (unat (length' * 4)), StartDMATransfer buffer]
                       @ replicate (Suc n) IsDMATransferComplete\<rparr>)"
  proof (intro impI, elim conjE)
    assume s: "start_status = 0" and d: "dma_done n" and e: "\<forall>j. j < n \<longrightarrow> \<not> dma_done j"
    have "wait_complete dma_done 0 ?dev2 =
        Some (?dev2\<lparr>calls := calls ?dev2 @ replicate (Suc (n - 0)) IsDMATransferComplete\<rparr>)"
      by (rule wait_complete_returns) (use d e in simp_all)
    then show "setData ERR_FAIL start_status dma_done buffer length' dev =
        Some (word_of_int ERR_SUCCESS,
              dev\<lparr>calls := calls dev @ [SetTransferSize (unat (length' * 4)), StartDMATransfer buffer]
                       @ replicate (Suc n) IsDMATransferComplete\<rparr>)"
      unfolding s poll by (simp add: ERR_SUCCESS_def)
  qed
  have never: "start_status = 0 \<and> (\<forall>j. \<not> dma_done j) \<longrightarrow>
      setData ERR_FAIL start_status dma_done buffer length' dev = None"
  proof (intro impI, elim conjE)
    assume s: "start_status = 0" and e: "\<forall>j. \<not> dma_done j"
    show "setData ERR_FAIL start_status dma_done buffer length' dev = None"
      unfolding s poll by (simp add: wait_complete_diverges [OF e])
  qed
  have size: "unat length' * 4 < 2 ^ LENGTH('a) \<longrightarrow> unat (length' * 4) = unat length' * 4"
  proof
    assume fits: "unat length' * 4 < 2 ^ LENGTH('a)"
    show "unat (length' * 4) = unat length' * 4"
    proof (cases "length' = 0")
      case True
      then show ?thesis by simp
    next
      case False
      then have "0 < unat length'" by (simp add: unat_gt_0)
      with fits have "(4::nat) < 2 ^ LENGTH('a)" by simp
      then have "unat (4 :: 'a word) = 4"
        by (simp add: unsigned_of_nat take_bit_nat_eq_self)
      with fits show ?thesis
        by (simp add: unat_word_ariths del: unsigned_numeral)
    qed
  qed
  from fail ok never size show ?thesis
    by (intro conjI)
qed

theorem setData_transfer_witness:
  "setData 1 1 (\<lambda>k. False) 4096 (8 :: 32 word) \<lparr>calib = None, calls = []\<rparr> =
      Some (1, \<lparr>calib = None, calls = [SetTransferSize 32, StartDMATransfer 4096]\<rparr>)
   \<and> setData 1 0 (\<lambda>k. 2 \<le> k) 4096 (8 :: 32 word) \<lparr>calib = None, calls = []\<rparr> =
      Some (0, \<lparr>calib = None, calls = [SetTransferSize 32, StartDMATransfer 4096,
               IsDMATransferComplete, IsDMATransferComplete, IsDMATransferComplete]\<rparr>)
   \<and> setData 1 0 (\<lambda>k. False) 4096 (8 :: 32 word) \<lparr>calib = None, calls = []\<rparr> = None
   \<and> unat (8 * 4 :: 32 word) = unat (8 :: 32 word) * 4"
proof -
  have failed: "setData 1 1 (\<lambda>k. False) 4096 (8 :: 32 word) \<lparr>calib = None, calls = []\<rparr> =
      Some (1, \<lparr>calib = None, calls = [SetTransferSize 32, StartDMATransfer 4096]\<rparr>)"
    using setData_transfer [where start_status = 1 and ERR_FAIL = 1 and dma_done = "\<lambda>k. False"
        and buffer = 4096 and length' = "8 :: 32 word" and dev = "\<lparr>calib = None, calls = []\<rparr>"]
    by simp
  have third_poll: "(0 :: 8 word) = 0 \<and> (2::nat) \<le> 2 \<and> (\<forall>j. j < 2 \<longrightarrow> \<not> (2::nat) \<le> j)"
    by simp
  have polls: "replicate (Suc 2) IsDMATransferComplete =
      [IsDMATransferComplete, IsDMATransferComplete, IsDMATransferComplete]"
    by (simp add: numeral_2_eq_2)
  have completed: "setData 1 0 (\<lambda>k. 2 \<le> k) 4096 (8 :: 32 word) \<lparr>calib = None, calls = []\<rparr> =
      Some (0, \<lparr>calib = None, calls = [SetTransferSize 32, StartDMATransfer 4096,
               IsDMATransferComplete, IsDMATransferComplete, IsDMATransferComplete]\<rparr>)"
    using setData_transfer [where start_status = 0 and ERR_FAIL = 1 and dma_done = "\<lambda>k. 2 \<le> k"
        and n = 2 and buffer = 4096 and length' = "8 :: 32 word" and dev = "\<lparr>calib = None, calls = []\<rparr>"]
      third_poll
    unfolding polls by (simp add: ERR_SUCCESS_def)
  have stalled: "setData 1 0 (\<lambda>k. False) 4096 (8 :: 32 word) \<lparr>calib = None, calls = []\<rparr> = None"
    using setData_transfer [where start_status = 0 and ERR_FAIL = 1 and dma_done = "\<lambda>k. False"
        and buffer = 4096 and length' = "8 :: 32 word" and dev = "\<lparr>calib = None, calls = []\<rparr>"]
    by simp
  have size: "unat (8 * 4 :: 32 word) = unat (8 :: 32 word) * 4"
    by simp
  from failed completed stalled size show ?thesis
    by (intro conjI)
qed

section \<open>Evaluating the floating-point operations\<close>

lemma bitlen_0: "bitlen 0 = 0"
  by (simp add: bitlen.simps)

lemma bitlen_1: "bitlen 1 = Suc 0"
  by (subst bitlen.simps) (simp add: bitlen_0)

lemma bitlen_Bit0: "bitlen (numeral (Num.Bit0 n)) = Suc (bitlen (numeral n))"
  by (subst bitlen.simps) simp

lemma bitlen_Bit1: "bitlen (numeral (Num.Bit1 n)) = Suc (bitlen (numeral n))"
  by (subst bitlen.simps) simp

lemma floor_rat_div_numeral: "\<lfloor>numeral a / numeral b :: rat\<rfloor> = numeral a div numeral b"
  by (metis floor_divide_of_int_eq of_int_numeral)

lemma floor_rat_one_div_numeral: "\<lfloor>1 / numeral b :: rat\<rfloor> = 1 div numeral b"
  by (metis floor_divide_of_int_eq of_int_numeral of_int_1)

lemma floor_rat_minus_div_numeral: "\<lfloor>- (numeral a / numeral b) :: rat\<rfloor> = - numeral a div numeral b"
  by (metis divide_minus_left floor_divide_of_int_eq of_int_neg_numeral of_int_numeral)

lemma ceiling_rat_div_numeral: "\<lceil>numeral a / numeral b :: rat\<rceil> = - (- numeral a div numeral b)"
  unfolding ceiling_def by (simp only: floor_rat_minus_div_numeral)

lemma ceiling_rat_minus_div_numeral: "\<lceil>- (numeral a / numeral b) :: rat\<rceil> = - (numeral a div numeral b)"
  unfolding ceiling_def by (simp only: minus_minus floor_rat_div_numeral)

lemmas bitlen_eval = bitlen_0 bitlen_1 bitlen_Bit0 bitlen_Bit1
  floor_rat_div_numeral floor_rat_one_div_numeral floor_rat_minus_div_numeral
  ceiling_rat_div_numeral ceiling_rat_minus_div_numeral

lemma powi_2_numeral: "(2::rat) powi (numeral k) = 2 ^ numeral k"
  by simp

lemma powi_2_neg_numeral: "(2::rat) powi (- numeral k) = 1 / 2 ^ numeral k"
  by (simp add: power_int_minus inverse_eq_divide)

lemma powi_2_one: "(2::rat) powi 1 = 2"
  by simp

lemma powi_2_neg_one: "(2::rat) powi (- 1) = 1 / 2"
  by (simp add: power_int_minus inverse_eq_divide)

lemmas fp_eval =
  fp_round_def round_mag_def flog2_def rne_def binary32_def binary64_def Let_def
  signed_inf_def signed_zero_def powi_2_numeral powi_2_neg_numeral powi_2_one powi_2_neg_one bitlen_eval
  fp_add_def fp_mul_def fp_div_def is_zero_def is_inf_def fp_lt_def fp_ge_def
  double_lit_def int_to_float_def itrunc_def

lemma RH: "REAL_RANGE_DAC_HIGH = Finite (748723438050345 / 140737488355328)"
  by (simp add: REAL_RANGE_DAC_HIGH_def fp_eval)

lemma RL: "REAL_RANGE_DAC_LOW = Finite (748723438050345 / 562949953421312)"
  by (simp add: REAL_RANGE_DAC_LOW_def fp_eval)

lemma IH: "IDEAL_RANGE_DAC_HIGH = Finite 5"
  by (simp add: IDEAL_RANGE_DAC_HIGH_def fp_eval)

lemma IL: "IDEAL_RANGE_DAC_LOW = Finite (5 / 4)"
  by (simp add: IDEAL_RANGE_DAC_LOW_def fp_eval)

lemma ratio_high: "fp_div binary64 IDEAL_RANGE_DAC_HIGH REAL_RANGE_DAC_HIGH = Finite (2116353208350797 / 2251799813685248)"
  unfolding IH RH by (simp add: fp_eval)

lemma ratio_low: "fp_div binary64 IDEAL_RANGE_DAC_LOW REAL_RANGE_DAC_LOW = Finite (2116353208350797 / 2251799813685248)"
  unfolding IL RL by (simp add: fp_eval)

lemma coefMult_zero_high: "computeCoefMult (Finite 0) 1 = Some 61594"
  unfolding computeCoefMult_def ratio_high by (simp add: fp_eval)

lemma coefMult_zero_low: "computeCoefMult (Finite 0) 0 = Some 61594"
  unfolding computeCoefMult_def ratio_low by (simp add: fp_eval)

lemma coefAdd_zero_high: "computeCoefAdd (Finite 0) (Finite 0) 1 = Some 0"
  unfolding computeCoefAdd_def RH by (simp add: fp_eval)

lemma coefAdd_zero_low: "computeCoefAdd (Finite 0) (Finite 0) 0 = Some 0"
  unfolding computeCoefAdd_def RL by (simp add: fp_eval)

lemma vMax_high: "double_to_float IDEAL_RANGE_DAC_HIGH = Finite 5"
  unfolding IH by (simp add: fp_eval)

lemma vMax_low: "double_to_float IDEAL_RANGE_DAC_LOW = Finite (5 / 4)"
  unfolding IL by (simp add: fp_eval)


lemma int_to_float_2p13: "int_to_float 8192 = Finite 8192"
  by (simp add: fp_eval)



section \<open>Bounds of the rounding\<close>

lemma bitlen_upper: "0 \<le> n \<Longrightarrow> n < 2 ^ bitlen n"
proof (induction n rule: bitlen.induct)
  case (1 n)
  show ?case
  proof (cases "n \<le> 0")
    case True
    with 1 show ?thesis by (simp add: bitlen.simps)
  next
    case False
    then have "n div 2 < 2 ^ bitlen (n div 2)"
      using 1 by simp
    then have "n < 2 * 2 ^ bitlen (n div 2)"
      by linarith
    with False show ?thesis
      by (subst bitlen.simps) simp
  qed
qed

lemma bitlen_lower: "0 < n \<Longrightarrow> 2 ^ (bitlen n - 1) \<le> n"
proof (induction n rule: bitlen.induct)
  case (1 n)
  show ?case
  proof (cases "n = 1")
    case True
    then show ?thesis by (simp add: bitlen.simps)
  next
    case False
    with 1 have pos: "0 < n div 2" by simp
    then have ih: "2 ^ (bitlen (n div 2) - 1) \<le> n div 2"
      using 1 by simp
    have "0 < bitlen (n div 2)"
      using pos by (subst bitlen.simps) simp
    then have "(2::int) ^ bitlen (n div 2) = 2 * 2 ^ (bitlen (n div 2) - 1)"
      by (cases "bitlen (n div 2)") simp_all
    with ih have "2 ^ bitlen (n div 2) \<le> n"
      by linarith
    with 1 show ?thesis
      by (subst bitlen.simps) simp
  qed
qed

lemma flog2_lower: 
  assumes "0 < x"
  shows "2 powi (flog2 x) \<le> x"
proof (cases "1 \<le> x")
  case True
  then have pos: "0 < \<lfloor>x\<rfloor>" by simp
  then have "0 < bitlen \<lfloor>x\<rfloor>"
    by (subst bitlen.simps) simp
  then have "flog2 x = int (bitlen \<lfloor>x\<rfloor> - 1)"
    using True by (simp add: flog2_def)
  then have "(2::rat) powi (flog2 x) = of_int (2 ^ (bitlen \<lfloor>x\<rfloor> - 1))"
    by simp
  also have "\<dots> \<le> of_int \<lfloor>x\<rfloor>"
    using bitlen_lower [OF pos] by (simp only: of_int_le_iff)
  also have "\<dots> \<le> x" by simp
  finally show ?thesis .
next
  case False
  let ?n = "\<lceil>1 / x\<rceil> - 1"
  have "(of_int 1 :: rat) < 1 / x" using False assms by simp
  then have "1 < \<lceil>1 / x\<rceil>" by (simp only: less_ceiling_iff)
  then have "0 \<le> ?n" by linarith
  then have "?n < 2 ^ bitlen ?n" by (rule bitlen_upper)
  then have "\<lceil>1 / x\<rceil> \<le> 2 ^ bitlen ?n" by linarith
  then have "1 / x \<le> of_int (2 ^ bitlen ?n)"
    by (simp only: ceiling_le_iff)
  then have "1 / x \<le> 2 ^ bitlen ?n" by simp
  then have "1 / 2 ^ bitlen ?n \<le> x"
    using assms by (simp add: field_simps)
  moreover have "(2::rat) powi (flog2 x) = 1 / 2 ^ bitlen ?n"
    using False by (simp add: flog2_def power_int_minus_divide)
  ultimately show ?thesis by simp
qed

lemma rne_le_Suc_floor: "rne y \<le> \<lfloor>y\<rfloor> + 1"
  by (simp add: rne_def Let_def)

lemma rne_nonneg: "0 \<le> y \<Longrightarrow> 0 \<le> rne y"
  by (simp add: rne_def Let_def)

lemma round_mag_nonneg: "0 \<le> x \<Longrightarrow> 0 \<le> round_mag fmt x"
  by (simp add: round_mag_def Let_def rne_nonneg)

lemma floor_le_rne: "\<lfloor>y\<rfloor> \<le> rne y"
  by (simp add: rne_def Let_def)

lemma rne_ge:
  assumes "of_int k \<le> y"
  shows "k \<le> rne y"
proof -
  have "k \<le> \<lfloor>y\<rfloor>" using assms by (simp add: le_floor_iff)
  with floor_le_rne [of y] show ?thesis by simp
qed

lemma rne_lt:
  assumes "y < of_int K - 1 / 2"
  shows "rne y < K"
proof -
  have "y < of_int K" using assms by simp
  then have f: "\<lfloor>y\<rfloor> < K" by (simp add: floor_less_iff)
  show ?thesis
  proof (cases "\<lfloor>y\<rfloor> = K - 1")
    case True
    then have "y - of_int \<lfloor>y\<rfloor> < 1 / 2"
      using assms by simp
    then have "rne y = \<lfloor>y\<rfloor>"
      by (simp add: rne_def Let_def)
    with f show ?thesis by simp
  next
    case False
    with f have "\<lfloor>y\<rfloor> + 1 < K" by simp
    with rne_le_Suc_floor [of y] show ?thesis by simp
  qed
qed

lemma rne_of_int: "rne (of_int k) = k"
  by (simp add: rne_def Let_def)

lemma flog2_lt:
  assumes "0 < x" "x < 2 powi j"
  shows "flog2 x < j"
proof (rule ccontr)
  assume "\<not> flog2 x < j"
  then have "(2::rat) powi j \<le> 2 powi (flog2 x)"
    by (intro power_int_increasing) simp_all
  with flog2_lower [OF assms(1)] assms(2) show False by simp
qed

lemma flog2_upper:
  assumes "0 < x"
  shows "x < 2 powi (flog2 x + 1)"
proof (cases "1 \<le> x")
  case True
  then have pos: "0 < \<lfloor>x\<rfloor>" by simp
  then have "0 < bitlen \<lfloor>x\<rfloor>"
    by (subst bitlen.simps) simp
  then have "flog2 x + 1 = int (bitlen \<lfloor>x\<rfloor>)"
    using True by (simp add: flog2_def)
  then have p: "(2::rat) powi (flog2 x + 1) = of_int (2 ^ bitlen \<lfloor>x\<rfloor>)"
    by simp
  have "\<lfloor>x\<rfloor> + 1 \<le> 2 ^ bitlen \<lfloor>x\<rfloor>"
    using bitlen_upper [of "\<lfloor>x\<rfloor>"] pos by simp
  then have "(of_int (\<lfloor>x\<rfloor> + 1) :: rat) \<le> of_int (2 ^ bitlen \<lfloor>x\<rfloor>)"
    by (simp only: of_int_le_iff)
  moreover have "x < of_int (\<lfloor>x\<rfloor> + 1)"
    by linarith
  ultimately show ?thesis
    unfolding p by simp
next
  case False
  let ?n = "\<lceil>1 / x\<rceil> - 1"
  have "(of_int 1 :: rat) < 1 / x" using False assms by simp
  then have "1 < \<lceil>1 / x\<rceil>" by (simp only: less_ceiling_iff)
  then have n: "0 < ?n" by linarith
  then have b: "0 < bitlen ?n"
    by (subst bitlen.simps) simp
  have "(of_int (2 ^ (bitlen ?n - 1)) :: rat) \<le> of_int ?n"
    using bitlen_lower [OF n] by (simp only: of_int_le_iff)
  also have "(of_int ?n :: rat) < 1 / x"
    by linarith
  finally have "2 ^ (bitlen ?n - 1) < 1 / x"
    by simp
  then have "x < 1 / 2 ^ (bitlen ?n - 1)"
    using assms by (simp add: field_simps)
  moreover have "flog2 x + 1 = - int (bitlen ?n - 1)"
    using False b by (simp add: flog2_def)
  then have "(2::rat) powi (flog2 x + 1) = 1 / 2 ^ (bitlen ?n - 1)"
    by (simp add: power_int_minus_divide)
  ultimately show ?thesis by simp
qed

lemma binary32_params: "prec binary32 = 24" "emin binary32 = - 126" "emax binary32 = 127"
  by (simp_all add: binary32_def)

lemma round_mag32: "round_mag binary32 x =
    of_int (rne (x / 2 powi (max (flog2 x) (- 126) - 23))) * 2 powi (max (flog2 x) (- 126) - 23)"
  by (simp add: round_mag_def Let_def binary32_params)

lemma powi_split:
  assumes "j \<le> k"
  shows "(2::rat) powi k = of_int (2 ^ nat (k - j)) * 2 powi j"
proof -
  have "(2::rat) powi k = 2 powi ((k - j) + j)" by simp
  also have "\<dots> = 2 powi (k - j) * 2 powi j"
    by (rule power_int_add) simp
  also have "(2::rat) powi (k - j) = of_int (2 ^ nat (k - j))"
    using assms by (simp add: power_int_nonneg_exp)
  finally show ?thesis .
qed

lemma round_mag_exact32:
  assumes y: "y = of_int m * 2 powi k" and m: "0 < m" "m < 2 ^ 24" and k: "- 149 \<le> k"
  shows "round_mag binary32 y = y"
proof -
  define e where "e = max (flog2 y) (- 126)"
  define u :: rat where "u = 2 powi (e - 23)"
  have u: "0 < u" by (simp add: u_def)
  have ypos: "0 < y" using m by (simp add: y)
  have "(of_int m :: rat) < of_int (2 ^ 24)"
    using m(2) by (simp only: of_int_less_iff)
  then have "y < of_int (2 ^ 24) * 2 powi k"
    unfolding y by (simp add: mult_strict_right_mono)
  also have "(of_int (2 ^ 24) :: rat) * 2 powi k = 2 powi (k + 24)"
    using powi_split [of k "k + 24"] by simp
  finally have "flog2 y < k + 24"
    using ypos by (intro flog2_lt)
  with k have "e - 23 \<le> k" by (simp add: e_def)
  from powi_split [OF this] have "y = of_int (m * 2 ^ nat (k - (e - 23))) * u"
    by (simp add: y u_def)
  then have "round_mag binary32 y = of_int (rne (of_int (m * 2 ^ nat (k - (e - 23))))) * u"
    unfolding round_mag32 e_def [symmetric] u_def [symmetric] using u by simp
  also have "\<dots> = y"
    using \<open>y = of_int (m * 2 ^ nat (k - (e - 23))) * u\<close> by (simp only: rne_of_int)
  finally show ?thesis .
qed

lemma float_form:
  assumes rep: "fp_round binary32 False x = Finite x" and nz: "x \<noteq> 0"
  shows "\<exists>m k. \<bar>x\<bar> = of_int m * 2 powi k \<and> 0 < m \<and> m < 2 ^ 24 \<and> - 149 \<le> k"
proof -
  define e where "e = max (flog2 \<bar>x\<bar>) (- 126)"
  define u :: rat where "u = 2 powi (e - 23)"
  define m where "m = rne (\<bar>x\<bar> / u)"
  have u: "0 < u" by (simp add: u_def)
  have "round_mag binary32 \<bar>x\<bar> = \<bar>x\<bar>"
    using rep nz
    by (auto simp: fp_round_def Let_def signed_inf_def signed_zero_def split: if_splits)
  then have x: "\<bar>x\<bar> = of_int m * u"
    unfolding round_mag32 by (simp add: m_def u_def e_def)
  have "0 < of_int m * u" using nz x by simp
  then have mpos: "0 < m" using u by (simp add: zero_less_mult_iff)
  have "\<bar>x\<bar> < 2 powi (flog2 \<bar>x\<bar> + 1)"
    using nz by (intro flog2_upper) simp
  also have "\<dots> \<le> 2 powi (e + 1)"
    by (intro power_int_increasing) (simp_all add: e_def)
  also have "\<dots> = of_int (2 ^ 24) * u"
    using powi_split [of "e - 23" "e + 1"] by (simp add: u_def)
  finally have "of_int m * u < of_int (2 ^ 24) * u"
    unfolding x .
  then have "(of_int m :: rat) < of_int (2 ^ 24)"
    using u by (simp only: mult_less_cancel_right_pos)
  then have "m < 2 ^ 24" by (simp only: of_int_less_iff)
  moreover have "- 149 \<le> e - 23" by (simp add: e_def)
  ultimately show ?thesis
    using x mpos unfolding u_def by blast
qed

lemma floor_round_quotient:
  assumes y: "y = of_int m * 2 powi k" and m: "0 < m" "m < 2 ^ 24" and k: "- 147 \<le> k"
    and small: "y < 2 ^ 24"
  shows "\<lfloor>round_mag binary32 (y / 5)\<rfloor> = \<lfloor>y / 5\<rfloor>"
proof -
  define t where "t = y / 5"
  define e where "e = max (flog2 t) (- 126)"
  define u :: rat where "u = 2 powi (e - 23)"
  define n where "n = \<lfloor>t\<rfloor>"
  define c where "c = nat (23 - e)"
  have u: "0 < u" by (simp add: u_def)
  have ypos: "0 < y" using m by (simp add: y)
  then have tpos: "0 < t" by (simp add: t_def)
  \<comment> \<open>the exponent of the quotient\<close>
  have "t < 2 powi 22"
    using small by (simp add: t_def)
  then have "flog2 t < 22"
    using tpos by (intro flog2_lt)
  then have e21: "e \<le> 21" by (simp add: e_def)
  have "(of_int m :: rat) < of_int (2 ^ 24)"
    using m(2) by (simp only: of_int_less_iff)
  then have "y < of_int (2 ^ 24) * 2 powi k"
    unfolding y by (simp add: mult_strict_right_mono)
  also have "(of_int (2 ^ 24) :: rat) * 2 powi k = 4 * 2 powi (k + 22)"
    using powi_split [of k "k + 22"] by simp
  finally have "t < 2 powi (k + 22)"
    using ypos by (simp add: t_def)
  then have "flog2 t < k + 22"
    using tpos by (intro flog2_lt)
  with k have ek: "e \<le> k + 21" by (simp add: e_def)
  \<comment> \<open>integers are multiples of the spacing\<close>
  have one: "of_int (2 ^ c) * u = 1"
    using powi_split [of "e - 23" 0] e21 by (simp add: c_def u_def)
  then have inv_u: "1 / u = of_int (2 ^ c)"
    using u by (simp add: field_simps)
  have "t / u = t * (1 / u)"
    by simp
  then have tu: "t / u = t * of_int (2 ^ c)"
    by (simp only: inv_u)
  \<comment> \<open>the rounded quotient is not below the floor\<close>
  have "of_int n \<le> t" by (simp add: n_def)
  then have "(of_int (n * 2 ^ c) :: rat) \<le> t / u"
    unfolding tu by (simp add: mult_right_mono)
  then have lower: "n * 2 ^ c \<le> rne (t / u)"
    by (rule rne_ge)
  \<comment> \<open>the gap to the next integer is at least four spacings\<close>
  define D where "D = 5 * of_int (n + 1) - y"
  have "t < of_int (n + 1)" unfolding n_def by linarith
  then have Dpos: "0 < D" by (simp add: D_def t_def)
  have four: "4 * u = 2 powi (e - 21)"
    using powi_split [of "e - 23" "e - 21"] by (simp add: u_def)
  have i1: "(1::rat) = of_int (2 ^ nat (21 - e)) * (4 * u)"
    unfolding four using powi_split [of "e - 21" 0] e21 by simp
  have i2: "(2::rat) powi k = of_int (2 ^ nat (k - (e - 21))) * (4 * u)"
    unfolding four using ek by (intro powi_split) simp
  define z where "z = 5 * (n + 1) * 2 ^ nat (21 - e) - m * 2 ^ nat (k - (e - 21))"
  have "D = 5 * of_int (n + 1) * 1 - of_int m * 2 powi k"
    by (simp add: D_def y)
  also have "\<dots> = 5 * of_int (n + 1) * (of_int (2 ^ nat (21 - e)) * (4 * u))
      - of_int m * (of_int (2 ^ nat (k - (e - 21))) * (4 * u))"
    using i1 i2 by simp
  also have "\<dots> = of_int z * (4 * u)"
    by (simp add: z_def algebra_simps)
  finally have Dz: "D = of_int z * (4 * u)" .
  with Dpos u have "0 < (of_int z :: rat)"
    by (simp add: zero_less_mult_iff)
  then have "1 \<le> z" by simp
  then have "(1::rat) \<le> of_int z" by simp
  then have "1 * (4 * u) \<le> of_int z * (4 * u)"
    using u by (intro mult_right_mono) simp_all
  then have gap: "4 * u \<le> D"
    unfolding Dz by simp
  \<comment> \<open>so the quotient is below the midpoint before the next integer\<close>
  define N :: rat where "N = of_int (n + 1)"
  have "y / 5 = N - (5 * N - y) / 5"
    by (simp add: diff_divide_distrib)
  then have "t = of_int (n + 1) - D / 5"
    unfolding D_def t_def N_def .
  also have "\<dots> < of_int (n + 1) - u / 2"
    using gap u by simp
  finally have "t * of_int (2 ^ c) < (of_int (n + 1) - u / 2) * of_int (2 ^ c)"
    by (simp add: mult_strict_right_mono)
  also have "\<dots> = of_int ((n + 1) * 2 ^ c) - (of_int (2 ^ c) * u) / 2"
    by (simp add: algebra_simps)
  finally have "t / u < of_int ((n + 1) * 2 ^ c) - 1 / 2"
    unfolding tu one .
  then have upper: "rne (t / u) < (n + 1) * 2 ^ c"
    by (rule rne_lt)
  \<comment> \<open>back to the rounded value\<close>
  define R where "R = of_int (rne (t / u)) * u"
  have R: "round_mag binary32 t = R"
    by (simp add: round_mag32 R_def u_def e_def)
  have "(of_int (n * 2 ^ c) :: rat) \<le> of_int (rne (t / u))"
    using lower by (simp only: of_int_le_iff)
  then have "of_int (n * 2 ^ c) * u \<le> R"
    unfolding R_def using u by (intro mult_right_mono) simp_all
  then have lowR: "of_int n \<le> R"
    using one by (simp add: mult.assoc)
  have "(of_int (rne (t / u)) :: rat) < of_int ((n + 1) * 2 ^ c)"
    using upper by (simp only: of_int_less_iff)
  then have "R < of_int ((n + 1) * 2 ^ c) * u"
    unfolding R_def using u by (intro mult_strict_right_mono) simp_all
  then have upR: "R < of_int (n + 1)"
    using one by (simp add: mult.assoc)
  from lowR upR have "\<lfloor>R\<rfloor> = n"
    by (simp add: floor_unique)
  then show ?thesis
    unfolding R [symmetric] n_def t_def .
qed

section \<open>Properties of the calibration load\<close>

lemma writeCoef_eq_Some:
  "writeCoef fld v dev = Some dev' \<longleftrightarrow> (\<exists>i. v = Some i \<and> dev' = writeRegFld fld i dev)"
  by (cases v) (auto simp: writeCoef_def)

lemma readUserCalib_fail:
  "base dev = (status, dev0) \<Longrightarrow> status \<noteq> ERR_SUCCESS \<Longrightarrow>
     readUserCalib base dev = Some (ERR_SUCCESS, dev0)"
  by (simp add: readUserCalib_def)

lemma readUserCalib_writes:
  assumes "base dev = (ERR_SUCCESS, dev0)" "calib dev0 = Some cal"
    and "computeCoefMult (cal (0, 1, 0)) 1 = Some v1"
    and "computeCoefAdd (cal (0, 1, 0)) (cal (0, 1, 1)) 1 = Some v2"
    and "computeCoefMult (cal (0, 0, 0)) 0 = Some v3"
    and "computeCoefAdd (cal (0, 0, 0)) (cal (0, 0, 1)) 0 = Some v4"
    and "computeCoefMult (cal (1, 1, 0)) 1 = Some v5"
    and "computeCoefAdd (cal (1, 1, 0)) (cal (1, 1, 1)) 1 = Some v6"
    and "computeCoefMult (cal (1, 0, 0)) 0 = Some v7"
    and "computeCoefAdd (cal (1, 0, 0)) (cal (1, 0, 1)) 0 = Some v8"
  shows "readUserCalib base dev = Some (ERR_SUCCESS, dev0\<lparr>calls := calls dev0 @
           [WriteRegFld ZMODDAC1411_REGFLD_SC1HGMULTCOEF_VAL v1,
            WriteRegFld ZMODDAC1411_REGFLD_SC1HGADDCOEF_VAL v2,
            WriteRegFld ZMODDAC1411_REGFLD_SC1LGMULTCOEF_VAL v3,
            WriteRegFld ZMODDAC1411_REGFLD_SC1LGADDCOEF_VAL v4,
            WriteRegFld ZMODDAC1411_REGFLD_SC2HGMULTCOEF_VAL v5,
            WriteRegFld ZMODDAC1411_REGFLD_SC2HGADDCOEF_VAL v6,
            WriteRegFld ZMODDAC1411_REGFLD_SC2LGMULTCOEF_VAL v7,
            WriteRegFld ZMODDAC1411_REGFLD_SC2LGADDCOEF_VAL v8]\<rparr>)"
  using assms by (simp add: readUserCalib_def writeCoef_def writeRegFld_def)

lemma readUserCalib_returns:
  assumes "base dev = (ERR_SUCCESS, dev0)" "readUserCalib base dev = Some (r, dev')"
  shows "\<exists>cal v1 v2 v3 v4 v5 v6 v7 v8.
      calib dev0 = Some cal
      \<and> computeCoefMult (cal (0, 1, 0)) 1 = Some v1
      \<and> computeCoefAdd (cal (0, 1, 0)) (cal (0, 1, 1)) 1 = Some v2
      \<and> computeCoefMult (cal (0, 0, 0)) 0 = Some v3
      \<and> computeCoefAdd (cal (0, 0, 0)) (cal (0, 0, 1)) 0 = Some v4
      \<and> computeCoefMult (cal (1, 1, 0)) 1 = Some v5
      \<and> computeCoefAdd (cal (1, 1, 0)) (cal (1, 1, 1)) 1 = Some v6
      \<and> computeCoefMult (cal (1, 0, 0)) 0 = Some v7
      \<and> computeCoefAdd (cal (1, 0, 0)) (cal (1, 0, 1)) 0 = Some v8"
  using assms
  by (auto simp: readUserCalib_def writeCoef_eq_Some bind_eq_Some_conv split: option.splits)

text \<open>
  Claim C1. \<open>readUserCalib\<close> returns \<open>ERR_SUCCESS\<close> whenever it returns, whatever the
  status of the base-layer load. With a status other than success it returns at once and
  records no register write. With the success status, a return comes after exactly the
  eight coefficient writes, in the order of the source; and it does return, with the
  computed values written, when the eight coefficient computations are defined.
\<close>

theorem readUserCalib_status:
  "(fst (base dev) \<noteq> ERR_SUCCESS \<longrightarrow>
      readUserCalib base dev = Some (ERR_SUCCESS, snd (base dev)))
   \<and> (readUserCalib base dev = Some (r, dev') \<longrightarrow> r = ERR_SUCCESS)
   \<and> (fst (base dev) = ERR_SUCCESS \<and> readUserCalib base dev = Some (r, dev') \<longrightarrow>
        (\<exists>v1 v2 v3 v4 v5 v6 v7 v8.
           dev' = (snd (base dev))\<lparr>calls := calls (snd (base dev)) @
             [WriteRegFld ZMODDAC1411_REGFLD_SC1HGMULTCOEF_VAL v1,
              WriteRegFld ZMODDAC1411_REGFLD_SC1HGADDCOEF_VAL v2,
              WriteRegFld ZMODDAC1411_REGFLD_SC1LGMULTCOEF_VAL v3,
              WriteRegFld ZMODDAC1411_REGFLD_SC1LGADDCOEF_VAL v4,
              WriteRegFld ZMODDAC1411_REGFLD_SC2HGMULTCOEF_VAL v5,
              WriteRegFld ZMODDAC1411_REGFLD_SC2HGADDCOEF_VAL v6,
              WriteRegFld ZMODDAC1411_REGFLD_SC2LGMULTCOEF_VAL v7,
              WriteRegFld ZMODDAC1411_REGFLD_SC2LGADDCOEF_VAL v8]\<rparr>))
   \<and> (fst (base dev) = ERR_SUCCESS \<and> calib (snd (base dev)) = Some cal
        \<and> computeCoefMult (cal (0, 1, 0)) 1 = Some v1
        \<and> computeCoefAdd (cal (0, 1, 0)) (cal (0, 1, 1)) 1 = Some v2
        \<and> computeCoefMult (cal (0, 0, 0)) 0 = Some v3
        \<and> computeCoefAdd (cal (0, 0, 0)) (cal (0, 0, 1)) 0 = Some v4
        \<and> computeCoefMult (cal (1, 1, 0)) 1 = Some v5
        \<and> computeCoefAdd (cal (1, 1, 0)) (cal (1, 1, 1)) 1 = Some v6
        \<and> computeCoefMult (cal (1, 0, 0)) 0 = Some v7
        \<and> computeCoefAdd (cal (1, 0, 0)) (cal (1, 0, 1)) 0 = Some v8 \<longrightarrow>
        readUserCalib base dev = Some (ERR_SUCCESS, (snd (base dev))\<lparr>calls := calls (snd (base dev)) @
             [WriteRegFld ZMODDAC1411_REGFLD_SC1HGMULTCOEF_VAL v1,
              WriteRegFld ZMODDAC1411_REGFLD_SC1HGADDCOEF_VAL v2,
              WriteRegFld ZMODDAC1411_REGFLD_SC1LGMULTCOEF_VAL v3,
              WriteRegFld ZMODDAC1411_REGFLD_SC1LGADDCOEF_VAL v4,
              WriteRegFld ZMODDAC1411_REGFLD_SC2HGMULTCOEF_VAL v5,
              WriteRegFld ZMODDAC1411_REGFLD_SC2HGADDCOEF_VAL v6,
              WriteRegFld ZMODDAC1411_REGFLD_SC2LGMULTCOEF_VAL v7,
              WriteRegFld ZMODDAC1411_REGFLD_SC2LGADDCOEF_VAL v8]\<rparr>))"
proof -
  obtain status dev0 where b: "base dev = (status, dev0)"
    by (cases "base dev")
  have fail: "status \<noteq> ERR_SUCCESS \<longrightarrow> readUserCalib base dev = Some (ERR_SUCCESS, dev0)"
    using readUserCalib_fail [of base dev status dev0] b by simp
  have writes: "status = ERR_SUCCESS \<and> readUserCalib base dev = Some (r, dev') \<longrightarrow>
      r = ERR_SUCCESS \<and> (\<exists>v1 v2 v3 v4 v5 v6 v7 v8.
           dev' = dev0\<lparr>calls := calls dev0 @
             [WriteRegFld ZMODDAC1411_REGFLD_SC1HGMULTCOEF_VAL v1,
              WriteRegFld ZMODDAC1411_REGFLD_SC1HGADDCOEF_VAL v2,
              WriteRegFld ZMODDAC1411_REGFLD_SC1LGMULTCOEF_VAL v3,
              WriteRegFld ZMODDAC1411_REGFLD_SC1LGADDCOEF_VAL v4,
              WriteRegFld ZMODDAC1411_REGFLD_SC2HGMULTCOEF_VAL v5,
              WriteRegFld ZMODDAC1411_REGFLD_SC2HGADDCOEF_VAL v6,
              WriteRegFld ZMODDAC1411_REGFLD_SC2LGMULTCOEF_VAL v7,
              WriteRegFld ZMODDAC1411_REGFLD_SC2LGADDCOEF_VAL v8]\<rparr>)"
  proof (intro impI, elim conjE)
    assume s: "status = ERR_SUCCESS" and ret: "readUserCalib base dev = Some (r, dev')"
    from b s have b': "base dev = (ERR_SUCCESS, dev0)" by simp
    from readUserCalib_returns [of base dev dev0 r dev'] b' ret obtain cal v1 v2 v3 v4 v5 v6 v7 v8 where
      c: "calib dev0 = Some cal"
      "computeCoefMult (cal (0, 1, 0)) 1 = Some v1"
      "computeCoefAdd (cal (0, 1, 0)) (cal (0, 1, 1)) 1 = Some v2"
      "computeCoefMult (cal (0, 0, 0)) 0 = Some v3"
      "computeCoefAdd (cal (0, 0, 0)) (cal (0, 0, 1)) 0 = Some v4"
      "computeCoefMult (cal (1, 1, 0)) 1 = Some v5"
      "computeCoefAdd (cal (1, 1, 0)) (cal (1, 1, 1)) 1 = Some v6"
      "computeCoefMult (cal (1, 0, 0)) 0 = Some v7"
      "computeCoefAdd (cal (1, 0, 0)) (cal (1, 0, 1)) 0 = Some v8"
      by blast
    have "readUserCalib base dev = Some (ERR_SUCCESS, dev0\<lparr>calls := calls dev0 @
             [WriteRegFld ZMODDAC1411_REGFLD_SC1HGMULTCOEF_VAL v1,
              WriteRegFld ZMODDAC1411_REGFLD_SC1HGADDCOEF_VAL v2,
              WriteRegFld ZMODDAC1411_REGFLD_SC1LGMULTCOEF_VAL v3,
              WriteRegFld ZMODDAC1411_REGFLD_SC1LGADDCOEF_VAL v4,
              WriteRegFld ZMODDAC1411_REGFLD_SC2HGMULTCOEF_VAL v5,
              WriteRegFld ZMODDAC1411_REGFLD_SC2HGADDCOEF_VAL v6,
              WriteRegFld ZMODDAC1411_REGFLD_SC2LGMULTCOEF_VAL v7,
              WriteRegFld ZMODDAC1411_REGFLD_SC2LGADDCOEF_VAL v8]\<rparr>)"
      by (rule readUserCalib_writes [of base dev dev0 cal]) (fact b' c)+
    with ret have "r = ERR_SUCCESS" and "dev' = dev0\<lparr>calls := calls dev0 @
             [WriteRegFld ZMODDAC1411_REGFLD_SC1HGMULTCOEF_VAL v1,
              WriteRegFld ZMODDAC1411_REGFLD_SC1HGADDCOEF_VAL v2,
              WriteRegFld ZMODDAC1411_REGFLD_SC1LGMULTCOEF_VAL v3,
              WriteRegFld ZMODDAC1411_REGFLD_SC1LGADDCOEF_VAL v4,
              WriteRegFld ZMODDAC1411_REGFLD_SC2HGMULTCOEF_VAL v5,
              WriteRegFld ZMODDAC1411_REGFLD_SC2HGADDCOEF_VAL v6,
              WriteRegFld ZMODDAC1411_REGFLD_SC2LGMULTCOEF_VAL v7,
              WriteRegFld ZMODDAC1411_REGFLD_SC2LGADDCOEF_VAL v8]\<rparr>"
      by simp_all
    then show "r = ERR_SUCCESS \<and> (\<exists>v1 v2 v3 v4 v5 v6 v7 v8.
           dev' = dev0\<lparr>calls := calls dev0 @
             [WriteRegFld ZMODDAC1411_REGFLD_SC1HGMULTCOEF_VAL v1,
              WriteRegFld ZMODDAC1411_REGFLD_SC1HGADDCOEF_VAL v2,
              WriteRegFld ZMODDAC1411_REGFLD_SC1LGMULTCOEF_VAL v3,
              WriteRegFld ZMODDAC1411_REGFLD_SC1LGADDCOEF_VAL v4,
              WriteRegFld ZMODDAC1411_REGFLD_SC2HGMULTCOEF_VAL v5,
              WriteRegFld ZMODDAC1411_REGFLD_SC2HGADDCOEF_VAL v6,
              WriteRegFld ZMODDAC1411_REGFLD_SC2LGMULTCOEF_VAL v7,
              WriteRegFld ZMODDAC1411_REGFLD_SC2LGADDCOEF_VAL v8]\<rparr>)"
      by (intro conjI exI)
  qed
  have always: "readUserCalib base dev = Some (r, dev') \<longrightarrow> r = ERR_SUCCESS"
    using fail writes by (cases "status = ERR_SUCCESS") auto
  show ?thesis
    unfolding b fst_conv snd_conv
    using fail writes always readUserCalib_writes [of base dev dev0 cal v1 v2 v3 v4 v5 v6 v7 v8] b
    by (intro conjI impI) (simp_all only:, blast+)
qed

theorem readUserCalib_status_witness:
  "readUserCalib (\<lambda>d. (1, d)) \<lparr>calib = Some (\<lambda>i. Finite 0), calls = []\<rparr> =
      Some (0, \<lparr>calib = Some (\<lambda>i. Finite 0), calls = []\<rparr>)
   \<and> readUserCalib (\<lambda>d. (0, d)) \<lparr>calib = Some (\<lambda>i. Finite 0), calls = []\<rparr> =
      Some (0, \<lparr>calib = Some (\<lambda>i. Finite 0), calls =
             [WriteRegFld ZMODDAC1411_REGFLD_SC1HGMULTCOEF_VAL 61594,
              WriteRegFld ZMODDAC1411_REGFLD_SC1HGADDCOEF_VAL 0,
              WriteRegFld ZMODDAC1411_REGFLD_SC1LGMULTCOEF_VAL 61594,
              WriteRegFld ZMODDAC1411_REGFLD_SC1LGADDCOEF_VAL 0,
              WriteRegFld ZMODDAC1411_REGFLD_SC2HGMULTCOEF_VAL 61594,
              WriteRegFld ZMODDAC1411_REGFLD_SC2HGADDCOEF_VAL 0,
              WriteRegFld ZMODDAC1411_REGFLD_SC2LGMULTCOEF_VAL 61594,
              WriteRegFld ZMODDAC1411_REGFLD_SC2LGADDCOEF_VAL 0]\<rparr>)"
proof -
  let ?dev = "\<lparr>calib = Some (\<lambda>i. Finite 0), calls = []\<rparr>"
  have failed: "readUserCalib (\<lambda>d. (1, d)) ?dev = Some (0, ?dev)"
    using readUserCalib_status [where base = "\<lambda>d. (1, d)" and dev = ?dev]
    by (simp add: ERR_SUCCESS_def)
  have loaded: "readUserCalib (\<lambda>d. (0, d)) ?dev =
      Some (0, \<lparr>calib = Some (\<lambda>i. Finite 0), calls =
             [WriteRegFld ZMODDAC1411_REGFLD_SC1HGMULTCOEF_VAL 61594,
              WriteRegFld ZMODDAC1411_REGFLD_SC1HGADDCOEF_VAL 0,
              WriteRegFld ZMODDAC1411_REGFLD_SC1LGMULTCOEF_VAL 61594,
              WriteRegFld ZMODDAC1411_REGFLD_SC1LGADDCOEF_VAL 0,
              WriteRegFld ZMODDAC1411_REGFLD_SC2HGMULTCOEF_VAL 61594,
              WriteRegFld ZMODDAC1411_REGFLD_SC2HGADDCOEF_VAL 0,
              WriteRegFld ZMODDAC1411_REGFLD_SC2LGMULTCOEF_VAL 61594,
              WriteRegFld ZMODDAC1411_REGFLD_SC2LGADDCOEF_VAL 0]\<rparr>)"
    using readUserCalib_status [where base = "\<lambda>d. (0, d)" and dev = ?dev and cal = "\<lambda>i. Finite 0"
        and ?v1.0 = 61594 and ?v2.0 = 0 and ?v3.0 = 61594 and ?v4.0 = 0
        and ?v5.0 = 61594 and ?v6.0 = 0 and ?v7.0 = 61594 and ?v8.0 = 0]
      coefMult_zero_high coefMult_zero_low coefAdd_zero_high coefAdd_zero_low
    by (simp add: ERR_SUCCESS_def)
  from failed loaded show ?thesis
    by (intro conjI)
qed

section \<open>Properties of the conversion from volts\<close>

lemma raw_high: "getSignedRawFromVolt voltValue 1 =
    (if fp_ge voltValue (Finite 5) then Some 8191
     else if fp_lt voltValue (Finite (- 5)) then Some 8192
     else float_to_int32 (fp_div binary32 (fp_mul binary32 voltValue (Finite 8192)) (Finite 5)))"
  by (simp add: getSignedRawFromVolt_def vMax_high int_to_float_2p13)

lemma raw_low: "getSignedRawFromVolt voltValue 0 =
    (if fp_ge voltValue (Finite (5 / 4)) then Some 8191
     else if fp_lt voltValue (Finite (- (5 / 4))) then Some 8192
     else float_to_int32 (fp_div binary32 (fp_mul binary32 voltValue (Finite 8192)) (Finite (5 / 4))))"
  by (simp add: getSignedRawFromVolt_def vMax_low int_to_float_2p13)

lemma lt_not_ge: "fp_lt v (Finite (- a)) \<Longrightarrow> 0 \<le> a \<Longrightarrow> \<not> fp_ge v (Finite a)"
  by (cases v) (auto simp: fp_lt_def fp_ge_def)

text \<open>
  Claim C6. With \<open>vMax\<close> 5.0 for gain 1 and 1.25 for gain 0, every \<open>voltValue\<close> that
  compares greater than or equal to \<open>vMax\<close> gives \<open>2^13 - 1\<close>, and every \<open>voltValue\<close>
  that compares less than \<open>-vMax\<close> gives \<open>2^13\<close>; 5.0 at gain 1 gives 8191, -10.0 at
  gain 1 gives 8192, and 0.0 at gain 0 gives 0.
\<close>

theorem getSignedRawFromVolt_clamp:
  "(fp_ge voltValue (Finite 5) \<longrightarrow> getSignedRawFromVolt voltValue 1 = Some (2 ^ 13 - 1))
   \<and> (fp_ge voltValue (Finite (5 / 4)) \<longrightarrow> getSignedRawFromVolt voltValue 0 = Some (2 ^ 13 - 1))
   \<and> (fp_lt voltValue (Finite (- 5)) \<longrightarrow> getSignedRawFromVolt voltValue 1 = Some (2 ^ 13))
   \<and> (fp_lt voltValue (Finite (- (5 / 4))) \<longrightarrow> getSignedRawFromVolt voltValue 0 = Some (2 ^ 13))
   \<and> getSignedRawFromVolt (Finite 5) 1 = Some 8191
   \<and> getSignedRawFromVolt (Finite (- 10)) 1 = Some 8192
   \<and> getSignedRawFromVolt (Finite 0) 0 = Some 0"
proof -
  have hi: "fp_ge voltValue (Finite 5) \<longrightarrow> getSignedRawFromVolt voltValue 1 = Some (2 ^ 13 - 1)"
    by (simp add: raw_high)
  have lo: "fp_ge voltValue (Finite (5 / 4)) \<longrightarrow> getSignedRawFromVolt voltValue 0 = Some (2 ^ 13 - 1)"
    by (simp add: raw_low)
  have nhi: "fp_lt voltValue (Finite (- 5)) \<longrightarrow> getSignedRawFromVolt voltValue 1 = Some (2 ^ 13)"
    using lt_not_ge [of voltValue 5] by (simp add: raw_high)
  have nlo: "fp_lt voltValue (Finite (- (5 / 4))) \<longrightarrow> getSignedRawFromVolt voltValue 0 = Some (2 ^ 13)"
    using lt_not_ge [of voltValue "5 / 4"] by (simp add: raw_low)
  have a: "getSignedRawFromVolt (Finite 5) 1 = Some 8191"
    by (simp add: raw_high fp_ge_def)
  have b: "getSignedRawFromVolt (Finite (- 10)) 1 = Some 8192"
    by (simp add: raw_high fp_ge_def fp_lt_def)
  have c: "getSignedRawFromVolt (Finite 0) 0 = Some 0"
    unfolding raw_low by (simp add: fp_eval)
  from hi lo nhi nlo a b c show ?thesis
    by (intro conjI)
qed

theorem getSignedRawFromVolt_clamp_witness:
  "fp_ge PInf (Finite 5) \<and> getSignedRawFromVolt PInf 1 = Some 8191
   \<and> fp_ge (Finite 2) (Finite (5 / 4)) \<and> getSignedRawFromVolt (Finite 2) 0 = Some 8191
   \<and> fp_lt (Finite (- 6)) (Finite (- 5)) \<and> getSignedRawFromVolt (Finite (- 6)) 1 = Some 8192
   \<and> fp_lt NInf (Finite (- (5 / 4))) \<and> getSignedRawFromVolt NInf 0 = Some 8192"
proof -
  have h1: "fp_ge PInf (Finite 5)" by (simp add: fp_ge_def)
  have h2: "fp_ge (Finite 2) (Finite (5 / 4))" by (simp add: fp_ge_def)
  have h3: "fp_lt (Finite (- 6)) (Finite (- 5))" by (simp add: fp_lt_def)
  have h4: "fp_lt NInf (Finite (- (5 / 4)))" by (simp add: fp_lt_def)
  show ?thesis
    using h1 h2 h3 h4 getSignedRawFromVolt_clamp [of PInf] getSignedRawFromVolt_clamp [of "Finite 2"]
      getSignedRawFromVolt_clamp [of "Finite (- 6)"] getSignedRawFromVolt_clamp [of NInf]
    by simp
qed

lemma cast_round_exact:
  assumes nz: "t \<noteq> 0" and fl: "\<lfloor>round_mag binary32 \<bar>t\<bar>\<rfloor> = \<lfloor>\<bar>t\<bar>\<rfloor>" and small: "\<bar>t\<bar> \<le> 2 ^ 20"
  shows "float_to_int32 (fp_round binary32 neg t) = Some (itrunc t)"
proof -
  define R where "R = round_mag binary32 \<bar>t\<bar>"
  have R0: "0 \<le> R" by (simp add: R_def round_mag_nonneg)
  have fl': "\<lfloor>R\<rfloor> = \<lfloor>\<bar>t\<bar>\<rfloor>" using fl by (simp add: R_def)
  have "\<lfloor>\<bar>t\<bar>\<rfloor> \<le> 2 ^ 20"
    using small by (simp add: floor_le_iff)
  with fl' have "\<lfloor>R\<rfloor> \<le> 2 ^ 20" by simp
  then have Rsmall: "R < 2 ^ 20 + 1"
    by (simp add: floor_le_iff)
  then have no_overflow: "\<not> 2 powi (emax binary32 + 1) \<le> R"
    by (simp add: binary32_params)
  have eq: "fp_round binary32 neg t =
      (if R = 0 then signed_zero (t < 0) else Finite (if t < 0 then - R else R))"
    unfolding fp_round_def Let_def R_def [symmetric] using nz no_overflow by simp
  have tr: "itrunc t = (if t < 0 then - \<lfloor>R\<rfloor> else \<lfloor>R\<rfloor>)"
    unfolding fl' itrunc_def using nz by (simp add: ceiling_def abs_if)
  have range: "\<lfloor>R\<rfloor> < 2 ^ 31" "- (2 ^ 31) \<le> - \<lfloor>R\<rfloor>" "0 \<le> \<lfloor>R\<rfloor>"
    using \<open>\<lfloor>R\<rfloor> \<le> 2 ^ 20\<close> R0 by simp_all
  show ?thesis
  proof (cases "R = 0")
    case True
    then show ?thesis
      unfolding eq tr by (simp add: signed_zero_def itrunc_def)
  next
    case False
    with R0 have Rpos: "0 < R" by simp
    show ?thesis
    proof (cases "t < 0")
      case True
      then have "itrunc (- R) = - \<lfloor>R\<rfloor>"
        using Rpos by (simp add: itrunc_def ceiling_def)
      moreover have "- (2 ^ 31) \<le> - \<lfloor>R\<rfloor> \<and> - \<lfloor>R\<rfloor> < 2 ^ 31"
        using range by linarith
      ultimately show ?thesis
        unfolding eq tr using True False by simp
    next
      case neg: False
      then have "itrunc R = \<lfloor>R\<rfloor>"
        using R0 by (simp add: itrunc_def)
      with neg False range show ?thesis
        unfolding eq tr by simp
    qed
  qed
qed

lemma mul_8192_exact:
  assumes rep: "is_float x" and small: "\<bar>x\<bar> \<le> 8"
  shows "fp_mul binary32 (Finite x) (Finite 8192) = Finite (x * 8192)"
proof (cases "x = 0")
  case True
  then show ?thesis
    by (simp add: fp_mul_def is_inf_def is_zero_def fp_round_def signed_zero_def)
next
  case False
  from float_form [OF rep [unfolded is_float_def] False] obtain m k where
    f: "\<bar>x\<bar> = of_int m * 2 powi k" "0 < m" "m < 2 ^ 24" "- 149 \<le> k"
    by blast
  have "\<bar>x * 8192\<bar> = of_int m * 2 powi (k + 13)"
    using powi_split [of k "k + 13"] by (simp add: abs_mult f(1))
  then have exact: "round_mag binary32 \<bar>x * 8192\<bar> = \<bar>x * 8192\<bar>"
    using f by (intro round_mag_exact32 [of _ m "k + 13"]) simp_all
  have "\<bar>x * 8192\<bar> \<le> 8 * 8192"
    using small by (simp add: abs_mult)
  then have no_overflow: "\<not> 2 powi (emax binary32 + 1) \<le> \<bar>x * 8192\<bar>"
    by (simp add: binary32_params)
  have "fp_mul binary32 (Finite x) (Finite 8192) = fp_round binary32 (x < 0) (x * 8192)"
    by (simp add: fp_mul_def is_inf_def is_zero_def)
  also have "\<dots> = Finite (x * 8192)"
    unfolding fp_round_def Let_def exact using False no_overflow by (simp add: abs_if)
  finally show ?thesis .
qed

lemma exact_cast:
  assumes rep: "is_float x" and vM: "vM = 5 \<or> vM = 5 / 4" and x: "\<bar>x\<bar> \<le> vM"
  shows "float_to_int32 (fp_div binary32 (fp_mul binary32 (Finite x) (Finite 8192)) (Finite vM))
     = Some (itrunc (x * 8192 / vM))"
proof (cases "x = 0")
  case True
  then show ?thesis
    using vM by (auto simp: fp_mul_def fp_div_def is_inf_def is_zero_def fp_round_def signed_zero_def itrunc_def)
next
  case False
  from float_form [OF rep [unfolded is_float_def] False] obtain m k where
    f: "\<bar>x\<bar> = of_int m * 2 powi k" "0 < m" "m < 2 ^ 24" "- 149 \<le> k"
    by blast
  define t where "t = x * 8192 / vM"
  have vMpos: "0 < vM" using vM by auto
  have tnz: "t \<noteq> 0" using False vMpos by (simp add: t_def)
  have x8: "\<bar>x\<bar> \<le> 8" using x vM by auto
  have q: "fp_div binary32 (fp_mul binary32 (Finite x) (Finite 8192)) (Finite vM)
      = fp_round binary32 (x < 0) t"
    unfolding mul_8192_exact [OF rep x8] using False vMpos
    by (simp add: fp_div_def is_inf_def is_zero_def t_def mult_less_0_iff not_less [symmetric] less_imp_le)
  have fl: "\<lfloor>round_mag binary32 \<bar>t\<bar>\<rfloor> = \<lfloor>\<bar>t\<bar>\<rfloor>"
  proof -
    from vM show ?thesis
    proof
      assume v: "vM = 5"
      have y: "\<bar>x\<bar> * 8192 = of_int m * 2 powi (k + 13)"
        using powi_split [of k "k + 13"] by (simp add: f(1))
      have "\<bar>x\<bar> * 8192 < 2 ^ 24" using x v by simp
      from floor_round_quotient [OF y f(2) f(3) _ this] f(4)
      show ?thesis by (simp add: t_def v abs_mult)
    next
      assume v: "vM = 5 / 4"
      have y: "\<bar>x\<bar> * 32768 = of_int m * 2 powi (k + 15)"
        using powi_split [of k "k + 15"] by (simp add: f(1))
      have "\<bar>x\<bar> * 32768 < 2 ^ 24" using x v by simp
      from floor_round_quotient [OF y f(2) f(3) _ this] f(4)
      show ?thesis by (simp add: t_def v abs_mult mult.commute)
    qed
  qed
  have "\<bar>t\<bar> \<le> 2 ^ 20"
  proof -
    from vM show ?thesis
    proof
      assume "vM = 5"
      with x show ?thesis by (simp add: t_def abs_mult)
    next
      assume v: "vM = 5 / 4"
      have "\<bar>x\<bar> \<le> 5 / 4" using x unfolding v .
      then show ?thesis unfolding t_def v by (simp add: abs_mult)
    qed
  qed
  from cast_round_exact [OF tnz fl this] show ?thesis
    unfolding q t_def .
qed

text \<open>
  Claim C7, as amended. For every \<open>float\<close> \<open>voltValue\<close> with
  \<open>-vMax \<le> voltValue < vMax\<close> the result is the quotient \<open>voltValue * 2^13 / vMax\<close>
  truncated towards zero: its floor when \<open>voltValue\<close> is not negative, its ceiling when
  \<open>voltValue\<close> is negative, and 0 for the negative zero. The rounding of the
  \<open>float\<close> division never reaches the next integer, so the quotient here is the exact
  one.
\<close>

theorem getSignedRawFromVolt_in_range:
  "(is_float x \<and> - 5 \<le> x \<and> x < 5 \<longrightarrow>
      getSignedRawFromVolt (Finite x) 1 =
        Some (if 0 \<le> x then \<lfloor>x * 2 ^ 13 / 5\<rfloor> else \<lceil>x * 2 ^ 13 / 5\<rceil>))
   \<and> (is_float x \<and> - (5 / 4) \<le> x \<and> x < 5 / 4 \<longrightarrow>
      getSignedRawFromVolt (Finite x) 0 =
        Some (if 0 \<le> x then \<lfloor>x * 2 ^ 13 / (5 / 4)\<rfloor> else \<lceil>x * 2 ^ 13 / (5 / 4)\<rceil>))
   \<and> getSignedRawFromVolt NegZero 1 = Some 0
   \<and> getSignedRawFromVolt NegZero 0 = Some 0"
proof (intro conjI impI; (elim conjE)?)
  assume "is_float x" "- 5 \<le> x" "x < 5"
  then show "getSignedRawFromVolt (Finite x) 1 =
        Some (if 0 \<le> x then \<lfloor>x * 2 ^ 13 / 5\<rfloor> else \<lceil>x * 2 ^ 13 / 5\<rceil>)"
    using exact_cast [of x 5]
    by (simp add: raw_high fp_ge_def fp_lt_def itrunc_def zero_le_mult_iff)
next
  assume "is_float x" "- (5 / 4) \<le> x" "x < 5 / 4"
  then show "getSignedRawFromVolt (Finite x) 0 =
        Some (if 0 \<le> x then \<lfloor>x * 2 ^ 13 / (5 / 4)\<rfloor> else \<lceil>x * 2 ^ 13 / (5 / 4)\<rceil>)"
    using exact_cast [of x "5 / 4"]
    by (simp add: raw_low fp_ge_def fp_lt_def itrunc_def zero_le_mult_iff)
next
  show "getSignedRawFromVolt NegZero 1 = Some 0"
    unfolding raw_high by (simp add: fp_eval)
next
  show "getSignedRawFromVolt NegZero 0 = Some 0"
    unfolding raw_low by (simp add: fp_eval)
qed

theorem getSignedRawFromVolt_in_range_witness:
  "is_float (- 3) \<and> getSignedRawFromVolt (Finite (- 3)) 1 = Some (- 4915)
   \<and> is_float 1 \<and> getSignedRawFromVolt (Finite 1) 0 = Some 6553"
proof -
  have neg: "is_float (- 3)" and pos: "is_float 1"
    by (simp_all add: is_float_def fp_eval)
  have fl: "\<lceil>- 3 * 2 ^ 13 / 5 :: rat\<rceil> = - 4915" "\<lfloor>1 * 2 ^ 13 / (5 / 4) :: rat\<rfloor> = 6553"
    by (simp_all add: bitlen_eval)
  show ?thesis
    using neg pos getSignedRawFromVolt_in_range [of "- 3"] getSignedRawFromVolt_in_range [of 1] fl
    by simp
qed

text \<open>
  Claim C7 as stated gives the floor for every input in range. At -0.5 volts and gain 1
  the quotient is -819.2: the function returns -819, the floor is -820.
\<close>

theorem getSignedRawFromVolt_truncates_counterexample:
  "is_float (- (1 / 2))
   \<and> getSignedRawFromVolt (Finite (- (1 / 2))) 1 = Some (- 819)
   \<and> \<lfloor>(- (1 / 2)) * 2 ^ 13 / 5 :: rat\<rfloor> = - 820"
proof -
  have q: "fp_div binary32 (fp_mul binary32 (Finite (- (1 / 2))) (Finite 8192)) (Finite 5)
      = Finite (- (13421773 / 16384))"
    by (simp add: fp_eval)
  have "is_float (- (1 / 2))"
    by (simp add: is_float_def fp_eval)
  moreover have "getSignedRawFromVolt (Finite (- (1 / 2))) 1 = Some (- 819)"
    unfolding raw_high q by (simp add: fp_ge_def fp_lt_def itrunc_def bitlen_eval)
  moreover have "\<lfloor>(- (1 / 2)) * 2 ^ 13 / 5 :: rat\<rfloor> = - 820"
    by (simp add: bitlen_eval)
  ultimately show ?thesis by (intro conjI)
qed

section \<open>Properties of the coefficient computation\<close>

subsection \<open>The error of one rounding\<close>























subsection \<open>The error of the whole computation\<close>



















end
